theory Spec2Isabelle
  imports Main
begin

section \<open>The jobs table\<close>

text \<open>
  The three edge functions (enqueue, process, status) share one Postgres table, \<open>jobs\<close>.
  A row is a record with the columns of the table declaration; a nullable column is an
  \<open>option\<close>. Timestamps are milliseconds since the epoch (the precision of
  \<open>Date.toISOString\<close>), as integers. The counters \<open>retry_count\<close> and \<open>max_retries\<close> are
  natural numbers: the code writes 0 and 3 at insertion and afterwards only successors
  of stored values. The bound of the \<open>INTEGER\<close> columns is not modelled; a write beyond
  it would be refused by the store and leave the row as it was.
\<close>

datatype job_status = Pending | Processing | Completed | Failed | DeadLetter

datatype json =
    JNull
  | JBool bool
  | JNum int
  | JStr string
  | JArr "json list"
  | JObj "(string \<times> json) list"

type_synonym timestamp = int

record job =
  job_id :: string
  user_id :: "string option"
  idempotency_key :: "string option"
  query :: string
  status :: job_status
  result :: "json option"
  error_message :: "string option"
  retry_count :: nat
  max_retries :: nat
  next_retry_at :: "timestamp option"
  timeout_seconds :: nat
  locked_at :: "timestamp option"
  locked_by :: "string option"
  created_at :: timestamp
  updated_at :: timestamp
  completed_at :: "timestamp option"

type_synonym store = "job list"

text \<open>
  \<open>update(...).eq(...)\<close>: every row that satisfies the filter \<open>p\<close> gets the patch \<open>f\<close>; the
  table's \<open>BEFORE UPDATE\<close> trigger then stamps \<open>updated_at\<close> with the time \<open>t\<close> of the
  statement. A statement whose filter matches no row changes nothing and reports no error.
\<close>

definition update_where :: "timestamp \<Rightarrow> (job \<Rightarrow> bool) \<Rightarrow> (job \<Rightarrow> job) \<Rightarrow> store \<Rightarrow> store" where
  "update_where t p f s = map (\<lambda>j. if p j then (f j)\<lparr>updated_at := t\<rparr> else j) s"

definition rows_affected :: "(job \<Rightarrow> bool) \<Rightarrow> store \<Rightarrow> nat" where
  "rows_affected p s = length (filter p s)"

text \<open>\<open>.single()\<close>: the row when the query yields exactly one, no data otherwise.\<close>

fun single :: "'a list \<Rightarrow> 'a option" where
  "single [x] = Some x"
| "single _ = None"

section \<open>process: the worker\<close>

text \<open>
  A JavaScript \<open>Date\<close> holds a time value only within 8.64e15 ms of the epoch. Built
  from a number beyond that it is an invalid date, and \<open>toISOString\<close> then throws a
  \<open>RangeError\<close>. The clock itself always reads a valid date; the one date that the
  code computes is the retry time.
\<close>

datatype js_error = RangeError

definition valid_date :: "timestamp \<Rightarrow> bool" where
  "valid_date d \<longleftrightarrow> - 8640000000000000 \<le> d \<and> d \<le> 8640000000000000"

definition toISOString :: "timestamp \<Rightarrow> js_error + timestamp" where
  "toISOString d = (if valid_date d then Inr d else Inl RangeError)"

text \<open>
  \<open>calculateNextRetryTime\<close>; the first argument is the clock reading \<open>Date.now()\<close>. The
  result is the number that the \<open>Date\<close> is built from, whether it makes a valid date
  or not.
\<close>

definition calculateNextRetryTime :: "timestamp \<Rightarrow> nat \<Rightarrow> timestamp" where
  "calculateNextRetryTime now retryCount =
     (let baseDelayMs = 10 * 1000;
          delayMs = baseDelayMs * 2 ^ retryCount
      in now + delayMs)"

subsection \<open>Step 1: release stuck jobs\<close>

text \<open>
  The query \<open>.eq('status', 'processing').lt('locked_at', now - 600 * 1000)\<close>; a comparison
  with a null \<open>locked_at\<close> selects nothing.
\<close>

definition is_stuck :: "timestamp \<Rightarrow> job \<Rightarrow> bool" where
  "is_stuck now j \<longleftrightarrow>
     status j = Processing \<and>
     (case locked_at j of None \<Rightarrow> False | Some t \<Rightarrow> t < now - 600 * 1000)"

text \<open>The selected columns: \<open>id\<close>, and the pair \<open>retry_count\<close>, \<open>max_retries\<close>.\<close>

definition select_stuck :: "timestamp \<Rightarrow> store \<Rightarrow> (string \<times> nat \<times> nat) list" where
  "select_stuck now s =
     map (\<lambda>j. (job_id j, retry_count j, max_retries j)) (filter (is_stuck now) s)"

definition timeout_dead_letter :: "timestamp \<Rightarrow> job \<Rightarrow> job" where
  "timeout_dead_letter now j =
     j\<lparr>status := DeadLetter,
       error_message := Some ''Job timed out after maximum retries'',
       locked_at := None,
       locked_by := None,
       completed_at := Some now\<rparr>"

definition timeout_retry :: "nat \<Rightarrow> timestamp \<Rightarrow> job \<Rightarrow> job" where
  "timeout_retry rc nextRetryAt j =
     j\<lparr>status := Pending,
       error_message := Some ''Job timed out, will retry'',
       retry_count := rc + 1,
       next_retry_at := Some nextRetryAt,
       locked_at := None,
       locked_by := None\<rparr>"

text \<open>
  The body of the loop over \<open>stuckJobs\<close>: one update, addressed by id. In the second
  branch the payload holds \<open>calculateNextRetryTime(stuckJob.retry_count).toISOString()\<close>;
  when that throws, no update is issued.
\<close>

definition release_one :: "timestamp \<Rightarrow> store \<Rightarrow> string \<times> nat \<times> nat \<Rightarrow> js_error + store" where
  "release_one now s stuckJob =
     (case stuckJob of (i, rc, mr) \<Rightarrow>
        if rc \<ge> mr
        then Inr (update_where now (\<lambda>j. job_id j = i) (timeout_dead_letter now) s)
        else (case toISOString (calculateNextRetryTime now rc) of
                Inl e \<Rightarrow> Inl e
              | Inr nextRetryAt \<Rightarrow>
                  Inr (update_where now (\<lambda>j. job_id j = i) (timeout_retry rc nextRetryAt) s)))"

text \<open>
  The loop. An error thrown in its body leaves the loop and the handler; the rows
  written before stay written.
\<close>

fun release_loop ::
  "timestamp \<Rightarrow> store \<Rightarrow> (string \<times> nat \<times> nat) list \<Rightarrow> js_error option \<times> store" where
  "release_loop now s [] = (None, s)"
| "release_loop now s (stuckJob # rest) =
     (case release_one now s stuckJob of
        Inl e \<Rightarrow> (Some e, s)
      | Inr s' \<Rightarrow> release_loop now s' rest)"

definition release_stuck_jobs :: "timestamp \<Rightarrow> store \<Rightarrow> js_error option \<times> store" where
  "release_stuck_jobs now s = release_loop now s (select_stuck now s)"

subsection \<open>Step 2: pick up a job and lock it\<close>

text \<open>
  \<open>.in('status', ['pending', 'failed']).or('next_retry_at.is.null,next_retry_at.lte.now')
  .is('locked_at', null).order('created_at').limit(1).single()\<close>.
\<close>

definition eligible :: "timestamp \<Rightarrow> job \<Rightarrow> bool" where
  "eligible now j \<longleftrightarrow>
     (status j = Pending \<or> status j = Failed) \<and>
     (case next_retry_at j of None \<Rightarrow> True | Some t \<Rightarrow> t \<le> now) \<and>
     locked_at j = None"

text \<open>The first row in ascending \<open>created_at\<close>; among equal times, the earlier row of the scan.\<close>

fun oldest :: "job list \<Rightarrow> job option" where
  "oldest [] = None"
| "oldest (j # js) =
     (case oldest js of
        None \<Rightarrow> Some j
      | Some k \<Rightarrow> if created_at j \<le> created_at k then Some j else Some k)"

definition pick_job :: "timestamp \<Rightarrow> store \<Rightarrow> job option" where
  "pick_job now s = oldest (filter (eligible now) s)"

text \<open>The lock statement: \<open>.eq('id', job.id).in('status', ['pending', 'failed'])\<close>.\<close>

definition lock_filter :: "job \<Rightarrow> job \<Rightarrow> bool" where
  "lock_filter job j \<longleftrightarrow> job_id j = job_id job \<and> (status j = Pending \<or> status j = Failed)"

definition lock_patch :: "timestamp \<Rightarrow> string \<Rightarrow> job \<Rightarrow> job" where
  "lock_patch now worker j =
     j\<lparr>status := Processing, locked_at := Some now, locked_by := Some worker\<rparr>"

definition lock_job :: "timestamp \<Rightarrow> string \<Rightarrow> job \<Rightarrow> store \<Rightarrow> store" where
  "lock_job now worker job s = update_where now (lock_filter job) (lock_patch now worker) s"

subsection \<open>Step 3: call the external API\<close>

text \<open>
  What happens between the lock and the final update belongs to the environment: the
  call returns a JSON body with an ok status, returns a status that is not ok, throws
  (the fetch fails, or the body is not JSON), or the worker dies before it can write
  anything, which is the situation step 1 exists for.
\<close>

datatype api_event =
    ApiOk json
  | ApiNotOk nat
  | ApiThrows string
  | WorkerDies

fun decimal :: "nat \<Rightarrow> string" where
  "decimal n =
     (if n < 10 then [char_of (48 + n)]
      else decimal (n div 10) @ [char_of (48 + n mod 10)])"

declare decimal.simps [simp del]

text \<open>
  The \<open>try\<close> block of step 3: \<open>Inl\<close> is the message of the error caught by step 5,
  \<open>Inr\<close> is \<open>apiResult\<close>, \<open>None\<close> is a worker that never comes back.
\<close>

definition run_job :: "bool \<Rightarrow> api_event \<Rightarrow> (string + json) option" where
  "run_job forceFail ev =
     (if forceFail then Some (Inl ''Forced failure for testing retry mechanism'')
      else case ev of
        ApiOk apiResult \<Rightarrow> Some (Inr apiResult)
      | ApiNotOk n \<Rightarrow> Some (Inl (''API returned status '' @ decimal n))
      | ApiThrows m \<Rightarrow> Some (Inl m)
      | WorkerDies \<Rightarrow> None)"

subsection \<open>Steps 4 and 5: record the outcome\<close>

datatype response =
    NoPendingJobs
  | LockFailed
  | JobCompleted string
  | JobDeadLettered string nat
  | JobRetryScheduled string nat timestamp
  | InternalError
  | NoResponse

text \<open>A JSON \<open>null\<close> in an update payload stores SQL \<open>NULL\<close>.\<close>

definition to_column :: "json \<Rightarrow> json option" where
  "to_column v = (if v = JNull then None else Some v)"

definition completed_patch :: "timestamp \<Rightarrow> json \<Rightarrow> job \<Rightarrow> job" where
  "completed_patch fin apiResult j =
     j\<lparr>status := Completed,
       result := to_column apiResult,
       locked_at := None,
       locked_by := None,
       completed_at := Some fin\<rparr>"

definition dead_letter_patch :: "timestamp \<Rightarrow> string \<Rightarrow> nat \<Rightarrow> job \<Rightarrow> job" where
  "dead_letter_patch fin msg newRetryCount j =
     j\<lparr>status := DeadLetter,
       error_message := Some msg,
       retry_count := newRetryCount,
       locked_at := None,
       locked_by := None,
       completed_at := Some fin\<rparr>"

definition failed_patch :: "string \<Rightarrow> nat \<Rightarrow> timestamp \<Rightarrow> job \<Rightarrow> job" where
  "failed_patch msg newRetryCount nextRetryAt j =
     j\<lparr>status := Failed,
       error_message := Some msg,
       retry_count := newRetryCount,
       next_retry_at := Some nextRetryAt,
       locked_at := None,
       locked_by := None\<rparr>"

text \<open>
  \<open>job\<close> is the row as step 2 read it; the updates are addressed by its id alone.
  \<open>fin\<close> is the clock once the call has returned. In the retry branch the payload holds
  \<open>nextRetryAt.toISOString()\<close>; when that throws, no update is issued and the handler's
  outer \<open>catch\<close> answers "Internal server error" (500).
\<close>

definition job_succeeded :: "timestamp \<Rightarrow> job \<Rightarrow> json \<Rightarrow> store \<Rightarrow> response \<times> store" where
  "job_succeeded fin job apiResult s =
     (JobCompleted (job_id job),
      update_where fin (\<lambda>j. job_id j = job_id job) (completed_patch fin apiResult) s)"

definition job_failed :: "timestamp \<Rightarrow> job \<Rightarrow> string \<Rightarrow> store \<Rightarrow> response \<times> store" where
  "job_failed fin job msg s =
     (let newRetryCount = retry_count job + 1 in
      if newRetryCount \<ge> max_retries job
      then (JobDeadLettered (job_id job) newRetryCount,
            update_where fin (\<lambda>j. job_id j = job_id job)
              (dead_letter_patch fin msg newRetryCount) s)
      else let nextRetryAt = calculateNextRetryTime fin newRetryCount in
           (case toISOString nextRetryAt of
              Inl e \<Rightarrow> (InternalError, s)
            | Inr retryAt \<Rightarrow>
                (JobRetryScheduled (job_id job) newRetryCount retryAt,
                 update_where fin (\<lambda>j. job_id j = job_id job)
                   (failed_patch msg newRetryCount retryAt) s)))"

subsection \<open>The handler\<close>

text \<open>Steps 3 to 5 for the row \<open>job\<close> that step 2 read: the call and the final update.\<close>

definition finish_job ::
  "timestamp \<Rightarrow> bool \<Rightarrow> api_event \<Rightarrow> job \<Rightarrow> store \<Rightarrow> response \<times> store" where
  "finish_job fin forceFail ev job s =
     (case run_job forceFail ev of
        None \<Rightarrow> (NoResponse, s)
      | Some (Inr apiResult) \<Rightarrow> job_succeeded fin job apiResult s
      | Some (Inl msg) \<Rightarrow> job_failed fin job msg s)"

text \<open>
  The handler from the lock statement on. \<open>lockError\<close> is what the store reports for
  the lock statement: an error only when the statement could not be executed, in which
  case nothing was written. A statement that matches no row is not an error.
\<close>

definition claim_and_run ::
  "string \<Rightarrow> timestamp \<Rightarrow> timestamp \<Rightarrow> bool \<Rightarrow> string option \<Rightarrow> api_event \<Rightarrow> job \<Rightarrow> store
     \<Rightarrow> response \<times> store" where
  "claim_and_run worker now fin forceFail lockError ev job s =
     (case lockError of
        Some e \<Rightarrow> (LockFailed, s)
      | None \<Rightarrow> finish_job fin forceFail ev job (lock_job now worker job s))"

text \<open>
  Steps 1 and 2 up to the select: the store after the reaper, with the error that
  ended it or else the row picked.
\<close>

definition release_and_pick :: "timestamp \<Rightarrow> store \<Rightarrow> (js_error + job option) \<times> store" where
  "release_and_pick now s =
     (case release_stuck_jobs now s of
        (Some e, s') \<Rightarrow> (Inl e, s')
      | (None, s') \<Rightarrow> (Inr (pick_job now s'), s'))"

text \<open>
  One request to the process function that runs alone. \<open>worker\<close> is \<open>WORKER_ID\<close>, \<open>now\<close>
  the clock of steps 1 and 2, \<open>fin\<close> the clock of the final update.
\<close>

definition process_request ::
  "string \<Rightarrow> timestamp \<Rightarrow> timestamp \<Rightarrow> bool \<Rightarrow> string option \<Rightarrow> api_event \<Rightarrow> store
     \<Rightarrow> response \<times> store" where
  "process_request worker now fin forceFail lockError ev s =
     (case release_and_pick now s of
        (Inl e, s') \<Rightarrow> (InternalError, s')
      | (Inr None, s') \<Rightarrow> (NoPendingJobs, s')
      | (Inr (Some job), s') \<Rightarrow> claim_and_run worker now fin forceFail lockError ev job s')"

subsection \<open>Concurrent requests\<close>

text \<open>
  Each statement against the store is atomic, the handler as a whole is not: between
  its select, its lock statement and its final update, other requests may run theirs.
  A request is the tuple of what the environment supplies to it (\<open>WORKER_ID\<close>, the two
  clock readings, \<open>force_fail\<close>, the store's answer to the lock statement, the outcome
  of the call); its progress is the point it has reached in the handler. The statements
  of step 1 and the select of step 2 are taken as one step.
\<close>

type_synonym request = "string \<times> timestamp \<times> timestamp \<times> bool \<times> string option \<times> api_event"

datatype progress =
    Started
  | Picked "job option"
  | Locked job
  | Answered response

fun handler_step :: "request \<Rightarrow> progress \<Rightarrow> store \<Rightarrow> progress \<times> store" where
  "handler_step (worker, now, fin, forceFail, lockError, ev) Started s =
     (case release_and_pick now s of
        (Inl e, s') \<Rightarrow> (Answered InternalError, s')
      | (Inr picked, s') \<Rightarrow> (Picked picked, s'))"
| "handler_step (worker, now, fin, forceFail, lockError, ev) (Picked None) s =
     (Answered NoPendingJobs, s)"
| "handler_step (worker, now, fin, forceFail, lockError, ev) (Picked (Some job)) s =
     (case lockError of
        Some e \<Rightarrow> (Answered LockFailed, s)
      | None \<Rightarrow> (Locked job, lock_job now worker job s))"
| "handler_step (worker, now, fin, forceFail, lockError, ev) (Locked job) s =
     (case finish_job fin forceFail ev job s of (resp, s') \<Rightarrow> (Answered resp, s'))"
| "handler_step (worker, now, fin, forceFail, lockError, ev) (Answered resp) s =
     (Answered resp, s)"

text \<open>Two requests, run in the order that the schedule gives.\<close>

datatype turn = First | Second

fun interleave ::
  "turn list \<Rightarrow> request \<Rightarrow> request \<Rightarrow> progress \<times> progress \<times> store
     \<Rightarrow> progress \<times> progress \<times> store" where
  "interleave [] reqA reqB c = c"
| "interleave (First # ts) reqA reqB (pa, pb, s) =
     (case handler_step reqA pa s of (pa', s') \<Rightarrow> interleave ts reqA reqB (pa', pb, s'))"
| "interleave (Second # ts) reqA reqB (pa, pb, s) =
     (case handler_step reqB pb s of (pb', s') \<Rightarrow> interleave ts reqA reqB (pa, pb', s'))"

section \<open>enqueue: submission\<close>

text \<open>
  The request body after \<open>req.json()\<close>: \<open>None\<close> when there is no JSON object to
  destructure (the handler's outer \<open>catch\<close> answers 500), otherwise the fields \<open>query\<close> and
  \<open>user_id\<close>, each possibly missing. A missing field and an empty string are both falsy.
\<close>

definition truthy_string :: "string option \<Rightarrow> bool" where
  "truthy_string x \<longleftrightarrow> (case x of None \<Rightarrow> False | Some v \<Rightarrow> v \<noteq> [])"

datatype enqueue_response =
    QueryRequired
  | JobExists string job_status
  | JobCreated string job_status
  | CreateFailed
  | EnqueueInternalError

definition make_idempotency_key :: "string option \<Rightarrow> string \<Rightarrow> string" where
  "make_idempotency_key userId q =
     (if truthy_string userId then the userId @ '':'' @ q else ''anonymous:'' @ q)"

text \<open>
  \<open>.eq('idempotency_key', key).in('status', ['pending', 'processing']).single()\<close>; the
  error of \<open>single\<close> is not read, only the data.
\<close>

definition find_active :: "string \<Rightarrow> store \<Rightarrow> job option" where
  "find_active key s =
     single (filter (\<lambda>j. idempotency_key j = Some key \<and>
                          (status j = Pending \<or> status j = Processing)) s)"

text \<open>
  The column \<open>user_id\<close> has the type \<open>UUID\<close>, and the handler sends whatever text the
  client gave. Postgres reads a uuid from 32 hexadecimal digits in either case, with an
  optional hyphen after each group of four digits and optional braces around the
  whole, and stores it in lower case as 8-4-4-4-12; any other text is an error.
\<close>

definition is_xdigit :: "char \<Rightarrow> bool" where
  "is_xdigit c \<longleftrightarrow>
     (let n = (of_char c :: nat)
      in (48 \<le> n \<and> n \<le> 57) \<or> (65 \<le> n \<and> n \<le> 70) \<or> (97 \<le> n \<and> n \<le> 102))"

definition lower_xdigit :: "char \<Rightarrow> char" where
  "lower_xdigit c =
     (let n = (of_char c :: nat) in if 65 \<le> n \<and> n \<le> 70 then char_of (n + 32) else c)"

text \<open>
  \<open>uuid_bytes n i src\<close> reads \<open>n\<close> more bytes, the next one being byte \<open>i\<close> of 16, and
  returns their digits and the rest of the text.
\<close>

fun uuid_bytes :: "nat \<Rightarrow> nat \<Rightarrow> string \<Rightarrow> (string \<times> string) option" where
  "uuid_bytes 0 i src = Some ([], src)"
| "uuid_bytes (Suc n) i (a # b # src) =
     (if is_xdigit a \<and> is_xdigit b
      then (case uuid_bytes n (Suc i)
                   (case src of
                      c # rest \<Rightarrow> if c = CHR ''-'' \<and> odd i \<and> i < 15 then rest else src
                    | [] \<Rightarrow> src) of
              None \<Rightarrow> None
            | Some (digits, rest) \<Rightarrow> Some (lower_xdigit a # lower_xdigit b # digits, rest))
      else None)"
| "uuid_bytes (Suc n) i src = None"

definition parse_uuid :: "string \<Rightarrow> string option" where
  "parse_uuid src =
     (let braces = (case src of c # rest \<Rightarrow> c = CHR ''{'' | [] \<Rightarrow> False);
          body = (if braces then tl src else src)
      in case uuid_bytes 16 0 body of
           None \<Rightarrow> None
         | Some (digits, rest) \<Rightarrow>
             if rest = (if braces then ''}'' else [])
             then Some (take 8 digits @ ''-'' @ take 4 (drop 8 digits) @ ''-'' @
                        take 4 (drop 12 digits) @ ''-'' @ take 4 (drop 16 digits) @ ''-'' @
                        drop 20 digits)
             else None)"

text \<open>
  The insert, under the table declaration: the type of \<open>user_id\<close>,
  \<open>id UUID PRIMARY KEY\<close> and \<open>idempotency_key TEXT UNIQUE\<close>. A violation is reported as an
  error and nothing is inserted. The argument is the row with \<open>user_id\<close> as the
  payload has it.
\<close>

datatype db_error = InvalidUuid | PrimaryKeyViolation | UniqueViolation

definition db_insert :: "job \<Rightarrow> store \<Rightarrow> db_error + store" where
  "db_insert j s =
     (if user_id j \<noteq> None \<and> parse_uuid (the (user_id j)) = None then Inl InvalidUuid
      else if job_id j \<in> set (map job_id s) then Inl PrimaryKeyViolation
      else if idempotency_key j \<noteq> None \<and> idempotency_key j \<in> set (map idempotency_key s)
      then Inl UniqueViolation
      else Inr (s @ [j\<lparr>user_id := (case user_id j of None \<Rightarrow> None | Some u \<Rightarrow> parse_uuid u)\<rparr>]))"

text \<open>
  The row the handler sends; the columns it does not name take the defaults of the
  table. \<open>newId\<close> is the value of \<open>gen_random_uuid()\<close> and \<open>now\<close> the store's clock.
\<close>

definition new_job :: "string \<Rightarrow> timestamp \<Rightarrow> string \<Rightarrow> string option \<Rightarrow> string \<Rightarrow> job" where
  "new_job newId now q userId key =
     \<lparr>job_id = newId,
      user_id = (if truthy_string userId then userId else None),
      idempotency_key = Some key,
      query = q,
      status = Pending,
      result = None,
      error_message = None,
      retry_count = 0,
      max_retries = 3,
      next_retry_at = None,
      timeout_seconds = 600,
      locked_at = None,
      locked_by = None,
      created_at = now,
      updated_at = now,
      completed_at = None\<rparr>"

definition enqueue ::
  "string \<Rightarrow> timestamp \<Rightarrow> (string option \<times> string option) option \<Rightarrow> store
     \<Rightarrow> enqueue_response \<times> store" where
  "enqueue newId now body s =
     (case body of
        None \<Rightarrow> (EnqueueInternalError, s)
      | Some (q, userId) \<Rightarrow>
          if \<not> truthy_string q then (QueryRequired, s)
          else
            (let idempotencyKey = make_idempotency_key userId (the q) in
             case find_active idempotencyKey s of
               Some existingJob \<Rightarrow> (JobExists (job_id existingJob) (status existingJob), s)
             | None \<Rightarrow>
                 (case db_insert (new_job newId now (the q) userId idempotencyKey) s of
                    Inl insertError \<Rightarrow> (CreateFailed, s)
                  | Inr s' \<Rightarrow> (JobCreated newId Pending, s'))))"

section \<open>status: the projection\<close>

text \<open>
  A request is a preflight, a GET with its \<open>job_id\<close> query parameter, or any other
  method with its body: \<open>NoObject\<close> when \<open>req.json()\<close> or the field access throws,
  otherwise the field \<open>job_id\<close>, possibly missing.
\<close>

datatype post_body = NoObject | Body "string option"

datatype status_request = Options | Get "string option" | Post post_body

text \<open>
  The response object. A field that the handler assigns only under a condition is an
  \<open>option\<close>: \<open>None\<close> is a key that is absent from the JSON. A key that is present may
  still hold \<open>null\<close>, hence the nested options.
\<close>

record job_view =
  view_job_id :: string
  view_status :: job_status
  view_query :: string
  view_created_at :: timestamp
  view_updated_at :: timestamp
  view_result :: "json option"
  view_completed_at :: "timestamp option option"
  view_error_message :: "string option option"
  view_retry_count :: "nat option"
  view_max_retries :: "nat option"

datatype status_response =
    Preflight
  | BadRequest string
  | NotFound
  | View job_view
  | StatusInternalError

text \<open>JavaScript truthiness of a column read back as JSON.\<close>

fun truthy :: "json option \<Rightarrow> bool" where
  "truthy None = False"
| "truthy (Some JNull) = False"
| "truthy (Some (JBool b)) = b"
| "truthy (Some (JNum n)) = (n \<noteq> 0)"
| "truthy (Some (JStr v)) = (v \<noteq> [])"
| "truthy (Some (JArr _)) = True"
| "truthy (Some (JObj _)) = True"

definition project :: "job \<Rightarrow> job_view" where
  "project j =
     (let completed = (status j = Completed \<and> truthy (result j));
          failed = (status j = Failed \<or> status j = DeadLetter);
          retried = (status j = Pending \<and> retry_count j > 0)
      in \<lparr>view_job_id = job_id j,
          view_status = status j,
          view_query = query j,
          view_created_at = created_at j,
          view_updated_at = updated_at j,
          view_result = (if completed then result j else None),
          view_completed_at = (if completed then Some (completed_at j) else None),
          view_error_message = (if failed then Some (error_message j) else None),
          view_retry_count = (if failed \<or> retried then Some (retry_count j) else None),
          view_max_retries = (if failed \<or> retried then Some (max_retries j) else None)\<rparr>)"

text \<open>
  The handler returns its response, the store as it leaves it, and the ids it has looked
  up in the jobs table.
\<close>

definition status_handler :: "status_request \<Rightarrow> store \<Rightarrow> status_response \<times> store \<times> string list" where
  "status_handler req s =
     (case req of
        Options \<Rightarrow> (Preflight, s, [])
      | Post NoObject \<Rightarrow> (StatusInternalError, s, [])
      | _ \<Rightarrow>
          (let jobId = (case req of Get param \<Rightarrow> param | Post (Body field) \<Rightarrow> field | _ \<Rightarrow> None) in
           if \<not> truthy_string jobId then (BadRequest ''job_id is required'', s, [])
           else
             (case single (filter (\<lambda>j. job_id j = the jobId) s) of
                None \<Rightarrow> (NotFound, s, [the jobId])
              | Some j \<Rightarrow> (View (project j), s, [the jobId]))))"

section \<open>Executions\<close>

text \<open>
  The stores that the handlers produce from the empty table: by a submission, by a
  process request that runs alone, or by two process requests that overlap.
\<close>

inductive reachable :: "store \<Rightarrow> bool" where
  empty_table: "reachable []"
| after_enqueue: "reachable s \<Longrightarrow> reachable (snd (enqueue newId now body s))"
| after_process:
    "reachable s \<Longrightarrow> reachable (snd (process_request worker now fin forceFail lockError ev s))"
| after_overlap:
    "reachable s \<Longrightarrow> reachable (snd (snd (interleave ts reqA reqB (Started, Started, s))))"

section \<open>Properties of a row\<close>

text \<open>The lock fields are set together, and exactly on a row in \<open>processing\<close>.\<close>

definition lock_consistent :: "job \<Rightarrow> bool" where
  "lock_consistent j \<longleftrightarrow>
     (locked_at j \<noteq> None) = (locked_by j \<noteq> None) \<and>
     (locked_by j \<noteq> None) = (status j = Processing)"

text \<open>A row in \<open>failed\<close> or \<open>dead_letter\<close> carries an error message.\<close>

definition error_recorded :: "job \<Rightarrow> bool" where
  "error_recorded j \<longleftrightarrow>
     (status j = Failed \<or> status j = DeadLetter \<longrightarrow> error_message j \<noteq> None)"

text \<open>
  What one pass of the loop of step 1 writes to a row, given the pair \<open>retry_count\<close>,
  \<open>max_retries\<close> that the stuck-job query returned for it.
\<close>

definition released :: "timestamp \<Rightarrow> nat \<times> nat \<Rightarrow> job \<Rightarrow> job" where
  "released now snap j =
     (if fst snap \<ge> snd snap then timeout_dead_letter now j
      else timeout_retry (fst snap) (calculateNextRetryTime now (fst snap)) j)
       \<lparr>updated_at := now\<rparr>"

text \<open>The pairs for which the loop body throws.\<close>

definition release_throws :: "timestamp \<Rightarrow> nat \<times> nat \<Rightarrow> bool" where
  "release_throws now snap \<longleftrightarrow>
     fst snap < snd snap \<and> \<not> valid_date (calculateNextRetryTime now (fst snap))"

text \<open>
  A property that every patch of the process function establishes on the row it writes
  holds of all rows after each step, whatever rows the step was handed.
\<close>

definition established :: "(job \<Rightarrow> bool) \<Rightarrow> bool" where
  "established P \<longleftrightarrow>
     (\<forall>now t j. P ((timeout_dead_letter now j)\<lparr>updated_at := t\<rparr>)) \<and>
     (\<forall>rc nextRetryAt t j. P ((timeout_retry rc nextRetryAt j)\<lparr>updated_at := t\<rparr>)) \<and>
     (\<forall>now worker t j. P ((lock_patch now worker j)\<lparr>updated_at := t\<rparr>)) \<and>
     (\<forall>fin apiResult t j. P ((completed_patch fin apiResult j)\<lparr>updated_at := t\<rparr>)) \<and>
     (\<forall>fin msg n t j. P ((dead_letter_patch fin msg n j)\<lparr>updated_at := t\<rparr>)) \<and>
     (\<forall>msg n nextRetryAt t j. P ((failed_patch msg n nextRetryAt j)\<lparr>updated_at := t\<rparr>)) \<and>
     (\<forall>newId now q userId key u. P ((new_job newId now q userId key)\<lparr>user_id := u\<rparr>))"

section \<open>Example stores\<close>

text \<open>One anonymous submission of the query \<open>q\<close> at time 0.\<close>

definition one_pending :: store where
  "one_pending = snd (enqueue ''j1'' 0 (Some (Some ''q'', None)) [])"


text \<open>The same job after a worker has run it and the API has answered with an empty object.\<close>

definition completed_once :: store where
  "completed_once =
     snd (process_request ''w1'' 1000 6000 False None (ApiOk (JObj [])) one_pending)"

text \<open>
  Forced failures of the one job (\<open>force_fail\<close> throws before the API is called): the
  first request runs from 1 s to 6 s, the second from 30 s to 35 s, the third from 80 s
  to 85 s.
\<close>

definition failed_once :: store where
  "failed_once = snd (process_request ''w1'' 1000 6000 True None (ApiOk (JObj [])) one_pending)"

definition failed_twice :: store where
  "failed_twice =
     snd (process_request ''w1'' 30000 35000 True None (ApiOk (JObj [])) failed_once)"

definition failed_thrice :: store where
  "failed_thrice =
     snd (process_request ''w1'' 80000 85000 True None (ApiOk (JObj [])) failed_twice)"

text \<open>
  A worker claims a job at time \<open>t\<close> and dies; 700 s later another request finds the lock
  stale and releases it. That request picks nothing itself when the retry time it has
  just written lies ahead.
\<close>

definition abandon_and_release :: "timestamp \<Rightarrow> store \<Rightarrow> store" where
  "abandon_and_release t s =
     snd (process_request ''w2'' (t + 700000) (t + 705000) False None (ApiOk (JObj []))
       (snd (process_request ''w1'' t t False None WorkerDies s)))"

definition timed_out_once :: store where
  "timed_out_once = abandon_and_release 1000 one_pending"

definition timed_out_twice :: store where
  "timed_out_twice = abandon_and_release 1000000 timed_out_once"

definition timed_out_thrice :: store where
  "timed_out_thrice = abandon_and_release 2000000 timed_out_twice"

text \<open>
  Two rows in \<open>processing\<close>, both locked at time 0: one with a timeout of 60 s, one with
  a timeout of an hour.
\<close>

definition short_timeout_job :: job where
  "short_timeout_job =
     (new_job ''j1'' 0 ''q'' None ''anonymous:q'')
       \<lparr>status := Processing, timeout_seconds := 60,
        locked_at := Some 0, locked_by := Some ''w1''\<rparr>"

definition long_timeout_job :: job where
  "long_timeout_job =
     (new_job ''j2'' 0 ''r'' None ''anonymous:r'')
       \<lparr>status := Processing, timeout_seconds := 3600,
        locked_at := Some 0, locked_by := Some ''w1''\<rparr>"




text \<open>After the third release the job is picked once more, and this time the API call throws.\<close>

definition dead_after_timeouts :: store where
  "dead_after_timeouts =
     snd (process_request ''w1'' 3000000 3005000 False None (ApiThrows ''boom'') timed_out_thrice)"

section \<open>Evaluating the example stores\<close>

lemmas process_defs =
  process_request_def release_and_pick_def release_stuck_jobs_def select_stuck_def
  is_stuck_def release_one_def timeout_dead_letter_def timeout_retry_def
  calculateNextRetryTime_def valid_date_def toISOString_def pick_job_def eligible_def
  claim_and_run_def finish_job_def lock_job_def
  lock_filter_def lock_patch_def run_job_def job_succeeded_def job_failed_def
  completed_patch_def dead_letter_patch_def failed_patch_def to_column_def update_where_def

lemmas enqueue_defs =
  enqueue_def truthy_string_def make_idempotency_key_def find_active_def db_insert_def
  new_job_def

lemma one_pending_eq:
  "one_pending =
     [\<lparr>job_id = ''j1'', user_id = None, idempotency_key = Some ''anonymous:q'',
       query = ''q'', status = Pending, result = None, error_message = None,
       retry_count = 0, max_retries = 3, next_retry_at = None,
       timeout_seconds = 600, locked_at = None, locked_by = None,
       created_at = 0, updated_at = 0, completed_at = None\<rparr>]"
  by (simp add: one_pending_def enqueue_defs)


lemma completed_once_eq:
  "completed_once =
     [\<lparr>job_id = ''j1'', user_id = None, idempotency_key = Some ''anonymous:q'',
       query = ''q'', status = Completed, result = Some (JObj []), error_message = None,
       retry_count = 0, max_retries = 3, next_retry_at = None,
       timeout_seconds = 600, locked_at = None, locked_by = None,
       created_at = 0, updated_at = 6000, completed_at = Some 6000\<rparr>]"
  by (simp add: completed_once_def one_pending_eq process_defs)

lemma failed_once_eq:
  "failed_once =
     [\<lparr>job_id = ''j1'', user_id = None, idempotency_key = Some ''anonymous:q'',
       query = ''q'', status = Failed, result = None,
       error_message = Some ''Forced failure for testing retry mechanism'',
       retry_count = 1, max_retries = 3, next_retry_at = Some 26000,
       timeout_seconds = 600, locked_at = None, locked_by = None,
       created_at = 0, updated_at = 6000, completed_at = None\<rparr>]"
  by (simp add: failed_once_def one_pending_eq process_defs)

lemma failed_twice_eq:
  "failed_twice =
     [\<lparr>job_id = ''j1'', user_id = None, idempotency_key = Some ''anonymous:q'',
       query = ''q'', status = Failed, result = None,
       error_message = Some ''Forced failure for testing retry mechanism'',
       retry_count = 2, max_retries = 3, next_retry_at = Some 75000,
       timeout_seconds = 600, locked_at = None, locked_by = None,
       created_at = 0, updated_at = 35000, completed_at = None\<rparr>]"
  by (simp add: failed_twice_def failed_once_eq process_defs)

lemma failed_thrice_eq:
  "failed_thrice =
     [\<lparr>job_id = ''j1'', user_id = None, idempotency_key = Some ''anonymous:q'',
       query = ''q'', status = DeadLetter, result = None,
       error_message = Some ''Forced failure for testing retry mechanism'',
       retry_count = 3, max_retries = 3, next_retry_at = Some 75000,
       timeout_seconds = 600, locked_at = None, locked_by = None,
       created_at = 0, updated_at = 85000, completed_at = Some 85000\<rparr>]"
  by (simp add: failed_thrice_def failed_twice_eq process_defs)

lemma timed_out_once_eq:
  "timed_out_once =
     [\<lparr>job_id = ''j1'', user_id = None, idempotency_key = Some ''anonymous:q'',
       query = ''q'', status = Pending, result = None,
       error_message = Some ''Job timed out, will retry'',
       retry_count = 1, max_retries = 3, next_retry_at = Some 711000,
       timeout_seconds = 600, locked_at = None, locked_by = None,
       created_at = 0, updated_at = 701000, completed_at = None\<rparr>]"
  by (simp add: timed_out_once_def abandon_and_release_def one_pending_eq process_defs)

lemma timed_out_twice_eq:
  "timed_out_twice =
     [\<lparr>job_id = ''j1'', user_id = None, idempotency_key = Some ''anonymous:q'',
       query = ''q'', status = Pending, result = None,
       error_message = Some ''Job timed out, will retry'',
       retry_count = 2, max_retries = 3, next_retry_at = Some 1720000,
       timeout_seconds = 600, locked_at = None, locked_by = None,
       created_at = 0, updated_at = 1700000, completed_at = None\<rparr>]"
  by (simp add: timed_out_twice_def abandon_and_release_def timed_out_once_eq process_defs)

lemma timed_out_thrice_eq:
  "timed_out_thrice =
     [\<lparr>job_id = ''j1'', user_id = None, idempotency_key = Some ''anonymous:q'',
       query = ''q'', status = Pending, result = None,
       error_message = Some ''Job timed out, will retry'',
       retry_count = 3, max_retries = 3, next_retry_at = Some 2740000,
       timeout_seconds = 600, locked_at = None, locked_by = None,
       created_at = 0, updated_at = 2700000, completed_at = None\<rparr>]"
  by (simp add: timed_out_thrice_def abandon_and_release_def timed_out_twice_eq process_defs)



lemma dead_after_timeouts_eq:
  "dead_after_timeouts =
     [\<lparr>job_id = ''j1'', user_id = None, idempotency_key = Some ''anonymous:q'',
       query = ''q'', status = DeadLetter, result = None,
       error_message = Some ''boom'',
       retry_count = 4, max_retries = 3, next_retry_at = Some 2740000,
       timeout_seconds = 600, locked_at = None, locked_by = None,
       created_at = 0, updated_at = 3005000, completed_at = Some 3005000\<rparr>]"
  by (simp add: dead_after_timeouts_def timed_out_thrice_eq process_defs)

lemma reachable_examples:
  "reachable one_pending" "reachable failed_once" "reachable timed_out_once"
  "reachable dead_after_timeouts"
  unfolding dead_after_timeouts_def timed_out_thrice_def timed_out_twice_def
    timed_out_once_def abandon_and_release_def failed_once_def one_pending_def
  by (intro reachable.intros)+

section \<open>The status function\<close>

lemma single_filter_none:
  "\<forall>j\<in>set s. \<not> p j \<Longrightarrow> single (filter p s) = None"
  by (induction s) auto

lemma filter_distinct_key:
  "distinct (map f s) \<Longrightarrow> j \<in> set s \<Longrightarrow> filter (\<lambda>k. f k = f j) s = [j]"
proof (induction s)
  case Nil
  then show ?case by simp
next
  case (Cons a s)
  show ?case
  proof (cases "a = j")
    case True
    with Cons.prems have "\<forall>k\<in>set s. f k \<noteq> f j" by (auto simp: image_iff)
    then have "filter (\<lambda>k. f k = f j) s = []" by (simp add: filter_empty_conv)
    with True show ?thesis by simp
  next
    case False
    with Cons.prems have "j \<in> set s" "f a \<noteq> f j" by (auto simp: image_iff)
    with Cons show ?thesis by simp
  qed
qed



lemma status_read_only: "fst (snd (status_handler req s)) = s"
  by (auto simp: status_handler_def Let_def split: status_request.splits post_body.splits option.splits)

text \<open>
  Claim C10, as stated: every status request that carries no job id is answered with
  the validation error "job_id is required" (400). A request that is not a GET and
  whose body is missing, is not JSON or is \<open>null\<close> carries no job id either, but there
  \<open>await req.json()\<close> or \<open>body.job_id\<close> throws, and the outer \<open>catch\<close> answers
  "Internal server error" (500).
\<close>

theorem status_unreadable_body:
  "status_handler (Post NoObject) one_pending = (StatusInternalError, one_pending, []) \<and>
   fst (status_handler (Post NoObject) one_pending) \<noteq> BadRequest ''job_id is required''"
  by (simp add: status_handler_def)

text \<open>
  Claim C10, amended. A status request that carries no job id (none at all or an empty
  one) is answered without any job lookup and without a change to the store, and never
  with NotFound: with the validation error "job_id is required" (400) when it is a GET,
  or another method whose body is a JSON value that has no \<open>job_id\<close>; with "Internal
  server error" (500) when it is another method whose body is missing, not JSON or
  \<open>null\<close>; a preflight is answered as such.
\<close>

theorem status_without_job_id:
  assumes "\<forall>i. i \<noteq> [] \<longrightarrow> req \<noteq> Get (Some i) \<and> req \<noteq> Post (Body (Some i))"
  shows "status_handler req s =
           (if req = Options then Preflight
            else if req = Post NoObject then StatusInternalError
            else BadRequest ''job_id is required'', s, []) \<and>
         fst (status_handler req s) \<noteq> NotFound"
proof (cases req)
  case Options
  then show ?thesis by (simp add: status_handler_def)
next
  case (Get param)
  with assms have "\<not> truthy_string param"
    by (cases param) (auto simp: truthy_string_def)
  with Get show ?thesis by (simp add: status_handler_def)
next
  case (Post body)
  show ?thesis
  proof (cases body)
    case NoObject
    with Post show ?thesis by (simp add: status_handler_def)
  next
    case (Body field)
    with Post assms have "\<not> truthy_string field"
      by (cases field) (auto simp: truthy_string_def)
    with Post Body show ?thesis by (simp add: status_handler_def)
  qed
qed

theorem status_without_job_id_witness:
  "status_handler (Get None) one_pending = (BadRequest ''job_id is required'', one_pending, []) \<and>
   status_handler (Post (Body None)) one_pending =
     (BadRequest ''job_id is required'', one_pending, []) \<and>
   status_handler (Post (Body (Some []))) one_pending =
     (BadRequest ''job_id is required'', one_pending, []) \<and>
   status_handler (Post NoObject) one_pending = (StatusInternalError, one_pending, [])"
  using status_without_job_id [of "Get None" one_pending]
    status_without_job_id [of "Post (Body None)" one_pending]
    status_without_job_id [of "Post (Body (Some []))" one_pending]
    status_without_job_id [of "Post NoObject" one_pending]
  by simp




section \<open>The reaper\<close>

lemma job_id_released [simp]: "job_id (released now snap j) = job_id j"
  by (simp add: released_def timeout_dead_letter_def timeout_retry_def)


lemma release_one_throws:
  "release_throws now (rc, mr) \<Longrightarrow> release_one now s (i, rc, mr) = Inl RangeError"
  by (simp add: release_one_def release_throws_def toISOString_def)










text \<open>
  Claim C3 says that a processing job is stale once its lock is older than its own
  \<open>timeout_seconds\<close>. The stuck-job query compares \<open>locked_at\<close> with the clock minus
  the literal \<open>600 * 1000\<close> and never reads \<open>timeout_seconds\<close>. Two minutes after the
  lock, the job with a timeout of one minute is past its own deadline and is not
  selected; 700 s after the lock, the job with a timeout of an hour is within its own
  deadline and is selected.
\<close>

theorem stuck_query_ignores_timeout_seconds:
  "status short_timeout_job = Processing \<and>
   the (locked_at short_timeout_job) < 120000 - int (timeout_seconds short_timeout_job) * 1000 \<and>
   select_stuck 120000 [short_timeout_job, long_timeout_job] = [] \<and>
   release_stuck_jobs 120000 [short_timeout_job, long_timeout_job]
     = (None, [short_timeout_job, long_timeout_job]) \<and>
   status long_timeout_job = Processing \<and>
   \<not> the (locked_at long_timeout_job) < 700000 - int (timeout_seconds long_timeout_job) * 1000 \<and>
   select_stuck 700000 [short_timeout_job, long_timeout_job] = [(''j1'', 0, 3), (''j2'', 0, 3)]"
  by (simp add: short_timeout_job_def long_timeout_job_def new_job_def process_defs)

section \<open>Invariants of the rows\<close>

lemma update_where_all:
  assumes "\<forall>j\<in>set s. P j"
    and "\<And>j. p j \<Longrightarrow> P ((f j)\<lparr>updated_at := t\<rparr>)"
  shows "\<forall>j\<in>set (update_where t p f s). P j"
  using assms by (auto simp: update_where_def)

lemma lock_consistent_patches:
  "lock_consistent ((timeout_dead_letter now j)\<lparr>updated_at := t\<rparr>)"
  "lock_consistent ((timeout_retry rc nextRetryAt j)\<lparr>updated_at := t\<rparr>)"
  "lock_consistent ((lock_patch now worker j)\<lparr>updated_at := t\<rparr>)"
  "lock_consistent ((completed_patch fin apiResult j)\<lparr>updated_at := t\<rparr>)"
  "lock_consistent ((dead_letter_patch fin msg n j)\<lparr>updated_at := t\<rparr>)"
  "lock_consistent ((failed_patch msg n nextRetryAt j)\<lparr>updated_at := t\<rparr>)"
  "lock_consistent ((new_job newId now q userId key)\<lparr>user_id := u\<rparr>)"
  by (simp_all add: lock_consistent_def timeout_dead_letter_def timeout_retry_def
      lock_patch_def completed_patch_def dead_letter_patch_def failed_patch_def new_job_def)

lemma error_recorded_patches:
  "error_recorded ((timeout_dead_letter now j)\<lparr>updated_at := t\<rparr>)"
  "error_recorded ((timeout_retry rc nextRetryAt j)\<lparr>updated_at := t\<rparr>)"
  "error_recorded ((lock_patch now worker j)\<lparr>updated_at := t\<rparr>)"
  "error_recorded ((completed_patch fin apiResult j)\<lparr>updated_at := t\<rparr>)"
  "error_recorded ((dead_letter_patch fin msg n j)\<lparr>updated_at := t\<rparr>)"
  "error_recorded ((failed_patch msg n nextRetryAt j)\<lparr>updated_at := t\<rparr>)"
  "error_recorded ((new_job newId now q userId key)\<lparr>user_id := u\<rparr>)"
  by (simp_all add: error_recorded_def timeout_dead_letter_def timeout_retry_def
      lock_patch_def completed_patch_def dead_letter_patch_def failed_patch_def new_job_def)

lemma established_lock_consistent: "established lock_consistent"
  by (simp add: established_def lock_consistent_patches)

lemma established_error_recorded: "established error_recorded"
  by (simp add: established_def error_recorded_patches)

lemma release_one_all:
  assumes "established P" "\<forall>j\<in>set s. P j" "release_one now s stuckJob = Inr s'"
  shows "\<forall>j\<in>set s'. P j"
proof -
  obtain i rc mr where sj: "stuckJob = (i, rc, mr)" by (cases stuckJob) auto
  show ?thesis
  proof (cases "rc \<ge> mr")
    case True
    with assms(3) have "s' = update_where now (\<lambda>j. job_id j = i) (timeout_dead_letter now) s"
      by (simp add: sj release_one_def)
    then show ?thesis
      using assms(1,2) by (simp only:) (intro update_where_all, simp_all add: established_def)
  next
    case False
    with assms(3) obtain nextRetryAt
      where "s' = update_where now (\<lambda>j. job_id j = i) (timeout_retry rc nextRetryAt) s"
      by (auto simp: sj release_one_def split: sum.splits)
    then show ?thesis
      using assms(1,2) by (simp only:) (intro update_where_all, simp_all add: established_def)
  qed
qed

lemma release_loop_all:
  assumes "established P"
  shows "\<forall>j\<in>set s. P j \<Longrightarrow> \<forall>j\<in>set (snd (release_loop now s sjs)). P j"
proof (induction sjs arbitrary: s)
  case Nil
  then show ?case by simp
next
  case (Cons sj sjs)
  show ?case
  proof (cases "release_one now s sj")
    case (Inl e)
    with Cons.prems show ?thesis by simp
  next
    case (Inr s')
    from release_one_all [OF assms Cons.prems Inr] have "\<forall>j\<in>set s'. P j" .
    from Cons.IH [OF this] Inr show ?thesis by simp
  qed
qed

lemma release_stuck_jobs_all:
  assumes "established P" "\<forall>j\<in>set s. P j"
  shows "\<forall>j\<in>set (snd (release_stuck_jobs now s)). P j"
  using release_loop_all [OF assms] by (simp add: release_stuck_jobs_def)

lemma lock_job_all:
  assumes "established P" "\<forall>j\<in>set s. P j"
  shows "\<forall>j\<in>set (lock_job now worker job s). P j"
  unfolding lock_job_def
  using assms by (intro update_where_all) (simp_all add: established_def)

lemma job_succeeded_all:
  assumes "established P" "\<forall>j\<in>set s. P j"
  shows "\<forall>j\<in>set (snd (job_succeeded fin job apiResult s)). P j"
  unfolding job_succeeded_def snd_conv
  using assms by (intro update_where_all) (simp_all add: established_def)

lemma job_failed_all:
  assumes "established P" "\<forall>j\<in>set s. P j"
  shows "\<forall>j\<in>set (snd (job_failed fin job msg s)). P j"
proof (cases "retry_count job + 1 \<ge> max_retries job")
  case True
  then have "snd (job_failed fin job msg s) =
      update_where fin (\<lambda>j. job_id j = job_id job)
        (dead_letter_patch fin msg (retry_count job + 1)) s"
    by (simp add: job_failed_def Let_def)
  then show ?thesis
    using assms by (simp only:) (intro update_where_all, simp_all add: established_def)
next
  case False
  show ?thesis
  proof (cases "toISOString (calculateNextRetryTime fin (retry_count job + 1))")
    case (Inl e)
    with False assms(2) show ?thesis by (simp add: job_failed_def Let_def)
  next
    case (Inr retryAt)
    with False have "snd (job_failed fin job msg s) =
        update_where fin (\<lambda>j. job_id j = job_id job)
          (failed_patch msg (retry_count job + 1) retryAt) s"
      by (simp add: job_failed_def Let_def)
    then show ?thesis
      using assms by (simp only:) (intro update_where_all, simp_all add: established_def)
  qed
qed

lemma finish_job_all:
  assumes "established P" "\<forall>j\<in>set s. P j"
  shows "\<forall>j\<in>set (snd (finish_job fin forceFail ev job s)). P j"
proof (cases "run_job forceFail ev")
  case None
  with assms(2) show ?thesis by (simp add: finish_job_def)
next
  case (Some outcome)
  show ?thesis
  proof (cases outcome)
    case (Inl msg)
    with Some job_failed_all [OF assms, of fin job msg]
    show ?thesis by (simp add: finish_job_def)
  next
    case (Inr apiResult)
    with Some job_succeeded_all [OF assms, of fin job apiResult]
    show ?thesis by (simp add: finish_job_def)
  qed
qed

lemma claim_and_run_all:
  assumes "established P" "\<forall>j\<in>set s. P j"
  shows "\<forall>j\<in>set (snd (claim_and_run worker now fin forceFail lockError ev job s)). P j"
proof (cases lockError)
  case (Some e)
  with assms(2) show ?thesis by (simp add: claim_and_run_def)
next
  case None
  with finish_job_all [OF assms(1) lock_job_all [OF assms, of now worker job]]
  show ?thesis by (simp add: claim_and_run_def)
qed

lemma release_and_pick_all:
  assumes "established P" "\<forall>j\<in>set s. P j"
  shows "\<forall>j\<in>set (snd (release_and_pick now s)). P j"
  using release_stuck_jobs_all [OF assms, of now]
  by (simp add: release_and_pick_def split: prod.splits option.splits)

lemma process_request_all:
  assumes "established P" "\<forall>j\<in>set s. P j"
  shows "\<forall>j\<in>set (snd (process_request worker now fin forceFail lockError ev s)). P j"
proof (cases "release_and_pick now s")
  case (Pair picked s')
  with release_and_pick_all [OF assms, of now] have s': "\<forall>j\<in>set s'. P j" by simp
  show ?thesis
  proof (cases picked)
    case (Inl e)
    with Pair s' show ?thesis by (simp add: process_request_def)
  next
    case (Inr found)
    show ?thesis
    proof (cases found)
      case None
      with Inr Pair s' show ?thesis by (simp add: process_request_def)
    next
      case (Some job)
      with Inr Pair
        claim_and_run_all [OF assms(1) s', of worker now fin forceFail lockError ev job]
      show ?thesis by (simp add: process_request_def)
    qed
  qed
qed

lemma enqueue_all:
  assumes "established P" "\<forall>j\<in>set s. P j"
  shows "\<forall>j\<in>set (snd (enqueue newId now body s)). P j"
  using assms
  by (auto simp: enqueue_def db_insert_def established_def Let_def
      split: option.splits prod.splits sum.splits if_splits)

lemma handler_step_all:
  assumes "established P" "\<forall>j\<in>set s. P j"
  shows "\<forall>j\<in>set (snd (handler_step req pr s)). P j"
proof -
  obtain worker now fin forceFail lockError ev
    where req: "req = (worker, now, fin, forceFail, lockError, ev)"
    by (cases req) auto
  show ?thesis
  proof (cases pr)
    case Started
    with release_and_pick_all [OF assms, of now] show ?thesis
      by (simp add: req split: prod.splits sum.splits)
  next
    case (Picked picked)
    with assms(2) lock_job_all [OF assms] show ?thesis
      by (cases picked; cases lockError) (simp_all add: req)
  next
    case (Locked job)
    with finish_job_all [OF assms, of fin forceFail ev job] show ?thesis
      by (simp add: req split: prod.splits)
  next
    case (Answered resp)
    with assms(2) show ?thesis by (simp add: req)
  qed
qed

lemma interleave_all:
  assumes "established P"
  shows "\<forall>j\<in>set s. P j \<Longrightarrow> \<forall>j\<in>set (snd (snd (interleave ts reqA reqB (pa, pb, s)))). P j"
proof (induction ts arbitrary: pa pb s)
  case Nil
  then show ?case by simp
next
  case (Cons t ts)
  show ?case
  proof (cases t)
    case First
    obtain pa' s' where step: "handler_step reqA pa s = (pa', s')"
      by (cases "handler_step reqA pa s") auto
    with handler_step_all [OF assms Cons.prems, of reqA pa] have "\<forall>j\<in>set s'. P j" by simp
    from Cons.IH [OF this] step First show ?thesis by simp
  next
    case Second
    obtain pb' s' where step: "handler_step reqB pb s = (pb', s')"
      by (cases "handler_step reqB pb s") auto
    with handler_step_all [OF assms Cons.prems, of reqB pb] have "\<forall>j\<in>set s'. P j" by simp
    from Cons.IH [OF this] step Second show ?thesis by simp
  qed
qed

text \<open>A request that runs alone takes its three steps in a row.\<close>

lemma process_request_steps:
  "interleave [First, First, First] (worker, now, fin, forceFail, lockError, ev) reqB
     (Started, pb, s) =
   (Answered (fst (process_request worker now fin forceFail lockError ev s)), pb,
    snd (process_request worker now fin forceFail lockError ev s))"
  by (simp add: process_request_def claim_and_run_def
      split: prod.splits option.splits sum.splits)

lemma reachable_all:
  assumes "established P" "reachable s"
  shows "\<forall>j\<in>set s. P j"
  using assms(2)
proof (induction rule: reachable.induct)
  case empty_table
  show ?case by simp
next
  case (after_enqueue s newId now body)
  then show ?case using enqueue_all [OF assms(1)] by blast
next
  case (after_process s worker now fin forceFail lockError ev)
  then show ?case using process_request_all [OF assms(1)] by blast
next
  case (after_overlap s ts reqA reqB)
  then show ?case using interleave_all [OF assms(1)] by blast
qed

text \<open>
  Claim C6. Every operation of the core keeps the equivalence: \<open>locked_at\<close> is set iff
  \<open>locked_by\<close> is set iff the status is \<open>processing\<close>. This holds for a submission and
  for a whole process request, for each statement of the process function on its own
  (one pass of the reaper's loop that writes, the reaper's loop as far as it gets, the
  lock, the success update, the failure update), whatever row the statement was issued
  for, and for two requests interleaved in any order; the status query writes nothing.
\<close>

theorem lock_fields_follow_status:
  assumes "\<forall>j\<in>set s. lock_consistent j"
  shows "(\<forall>j\<in>set (snd (enqueue newId t body s)). lock_consistent j) \<and>
         (\<forall>j\<in>set (snd (process_request worker now fin forceFail lockError ev s)).
            lock_consistent j) \<and>
         (\<forall>s'. release_one now s stuckJob = Inr s' \<longrightarrow> (\<forall>j\<in>set s'. lock_consistent j)) \<and>
         (\<forall>j\<in>set (snd (release_stuck_jobs now s)). lock_consistent j) \<and>
         (\<forall>j\<in>set (lock_job now worker job s). lock_consistent j) \<and>
         (\<forall>j\<in>set (snd (job_succeeded fin job apiResult s)). lock_consistent j) \<and>
         (\<forall>j\<in>set (snd (job_failed fin job msg s)). lock_consistent j) \<and>
         (\<forall>j\<in>set (snd (snd (interleave ts reqA reqB (pa, pb, s)))). lock_consistent j) \<and>
         fst (snd (status_handler req s)) = s"
  using enqueue_all [OF established_lock_consistent assms]
    interleave_all [OF established_lock_consistent assms]
    process_request_all [OF established_lock_consistent assms]
    release_one_all [OF established_lock_consistent assms]
    release_stuck_jobs_all [OF established_lock_consistent assms]
    lock_job_all [OF established_lock_consistent assms]
    job_succeeded_all [OF established_lock_consistent assms]
    job_failed_all [OF established_lock_consistent assms]
    status_read_only
  by simp

theorem lock_fields_follow_status_witness:
  "list_all lock_consistent one_pending \<and>
   list_all lock_consistent
     (snd (process_request ''w1'' 1000 1000 False None WorkerDies one_pending)) \<and>
   map status (snd (process_request ''w1'' 1000 1000 False None WorkerDies one_pending))
     = [Processing]"
proof -
  have h: "\<forall>j\<in>set one_pending. lock_consistent j"
    by (simp add: one_pending_eq lock_consistent_def)
  have "map status (snd (process_request ''w1'' 1000 1000 False None WorkerDies one_pending))
     = [Processing]"
    by (simp add: one_pending_eq process_defs)
  with h lock_fields_follow_status [OF h, of _ _ _ "''w1''" 1000 1000 False None WorkerDies]
  show ?thesis by (simp add: list_all_iff)
qed

text \<open>
  Claim C5, as stated: \<open>error_message\<close> is set if and only if the status is \<open>failed\<close> or
  \<open>dead_letter\<close>. The reaper's reset writes \<open>status: 'pending'\<close> together with
  \<open>error_message: 'Job timed out, will retry'\<close>: after one abandoned claim and its
  release, the job is pending and carries an error message.
\<close>

theorem pending_job_with_error_message:
  "reachable timed_out_once \<and>
   map status timed_out_once = [Pending] \<and>
   map error_message timed_out_once = [Some ''Job timed out, will retry'']"
  using reachable_examples(3) by (simp add: timed_out_once_eq)

text \<open>
  Claim C5, amended. In every store that the handlers produce from the empty table, a job
  whose status is \<open>failed\<close> or \<open>dead_letter\<close> has its \<open>error_message\<close> set.
\<close>

theorem failed_jobs_carry_error_message:
  assumes "reachable s" and "j \<in> set s" and "status j = Failed \<or> status j = DeadLetter"
  shows "error_message j \<noteq> None"
  using reachable_all [OF established_error_recorded assms(1)] assms(2,3)
  by (auto simp: error_recorded_def)

theorem failed_jobs_carry_error_message_witness:
  "reachable failed_once \<and> hd failed_once \<in> set failed_once \<and>
   status (hd failed_once) = Failed \<and> error_message (hd failed_once) \<noteq> None"
proof -
  have h: "reachable failed_once" "hd failed_once \<in> set failed_once"
    "status (hd failed_once) = Failed"
    using reachable_examples(2) by (simp_all add: failed_once_eq)
  from failed_jobs_carry_error_message [OF h(1,2)] h show ?thesis by simp
qed

section \<open>Retries\<close>

lemma job_failed_dead_letter:
  "retry_count job + 1 \<ge> max_retries job \<Longrightarrow>
   job_failed fin job msg s =
     (JobDeadLettered (job_id job) (retry_count job + 1),
      update_where fin (\<lambda>j. job_id j = job_id job)
        (dead_letter_patch fin msg (retry_count job + 1)) s)"
  by (simp add: job_failed_def Let_def)

lemma job_failed_backoff:
  "retry_count job + 1 < max_retries job \<Longrightarrow>
   valid_date (fin + 10000 * 2 ^ (retry_count job + 1)) \<Longrightarrow>
   job_failed fin job msg s =
     (JobRetryScheduled (job_id job) (retry_count job + 1)
        (fin + 10000 * 2 ^ (retry_count job + 1)),
      update_where fin (\<lambda>j. job_id j = job_id job)
        (failed_patch msg (retry_count job + 1) (fin + 10000 * 2 ^ (retry_count job + 1))) s)"
  by (simp add: job_failed_def Let_def calculateNextRetryTime_def toISOString_def)

lemma job_failed_throws:
  "retry_count job + 1 < max_retries job \<Longrightarrow>
   \<not> valid_date (fin + 10000 * 2 ^ (retry_count job + 1)) \<Longrightarrow>
   job_failed fin job msg s = (InternalError, s)"
  by (simp add: job_failed_def Let_def calculateNextRetryTime_def toISOString_def)

text \<open>
  Claim C2 gives the delays 10 s, 20 s, 40 s for the retry counts 1, 2, 3 of a job with
  \<open>max_retries = 3\<close>, as the comment on \<open>calculateNextRetryTime\<close> does. The failure
  branch calls the function with the incremented count: the first failure, which
  finishes at 6 s, schedules the retry 20 s later, the second 40 s later, and the third
  dead-letters the job, leaving the \<open>next_retry_at\<close> of the second failure in the row.
\<close>

theorem first_failure_waits_20s:
  "fst (process_request ''w1'' 1000 6000 True None (ApiOk (JObj [])) one_pending)
     = JobRetryScheduled ''j1'' 1 (6000 + 20 * 1000) \<and>
   map retry_count failed_once = [1] \<and>
   map next_retry_at failed_once = [Some (6000 + 20 * 1000)] \<and>
   map retry_count failed_twice = [2] \<and>
   map next_retry_at failed_twice = [Some (35000 + 40 * 1000)] \<and>
   map status failed_thrice = [DeadLetter] \<and>
   map retry_count failed_thrice = [3] \<and>
   map next_retry_at failed_thrice = [Some (35000 + 40 * 1000)]"
  by (simp add: failed_once_eq failed_twice_eq failed_thrice_eq one_pending_eq process_defs)

text \<open>
  Claim C4 says that \<open>retry_count\<close> never exceeds \<open>max_retries\<close>. The reaper compares
  the count before it increments it, so the third release of an abandoned job leaves
  it pending with \<open>retry_count = 3 = max_retries\<close>; the job is picked again, the call
  fails, and the failure branch stores \<open>retry_count = 4\<close>.
\<close>

theorem retry_count_exceeds_max_retries:
  "reachable dead_after_timeouts \<and>
   map status timed_out_thrice = [Pending] \<and>
   map retry_count timed_out_thrice = [3] \<and>
   map max_retries timed_out_thrice = [3] \<and>
   map status dead_after_timeouts = [DeadLetter] \<and>
   map retry_count dead_after_timeouts = [4] \<and>
   map max_retries dead_after_timeouts = [3]"
  using reachable_examples(4) by (simp add: timed_out_thrice_eq dead_after_timeouts_eq)

section \<open>Submission\<close>

lemma enqueue_returns_active:
  assumes "truthy_string q" "find_active (make_idempotency_key userId (the q)) s = Some j"
  shows "enqueue newId now (Some (q, userId)) s = (JobExists (job_id j) (status j), s)"
  using assms by (simp add: enqueue_def)

lemma enqueue_creates:
  assumes "truthy_string q"
    and "\<forall>j\<in>set s. idempotency_key j \<noteq> Some (make_idempotency_key userId (the q))"
    and "\<forall>j\<in>set s. job_id j \<noteq> newId"
    and "truthy_string userId \<longrightarrow> parse_uuid (the userId) \<noteq> None"
  shows "enqueue newId now (Some (q, userId)) s =
     (JobCreated newId Pending,
      s @ [(new_job newId now (the q) userId (make_idempotency_key userId (the q)))
             \<lparr>user_id := (if truthy_string userId then parse_uuid (the userId) else None)\<rparr>])"
proof -
  let ?row = "new_job newId now (the q) userId (make_idempotency_key userId (the q))"
  have "find_active (make_idempotency_key userId (the q)) s = None"
    unfolding find_active_def using assms(2) by (intro single_filter_none) simp
  moreover have "db_insert ?row s =
      Inr (s @ [?row\<lparr>user_id := (if truthy_string userId then parse_uuid (the userId) else None)\<rparr>])"
  proof (cases "truthy_string userId")
    case True
    then obtain u where u: "userId = Some u" by (cases userId) (auto simp: truthy_string_def)
    with True assms(2,3,4) show ?thesis
      by (auto simp: db_insert_def new_job_def image_iff)
  next
    case False
    with assms(2,3) show ?thesis
      by (auto simp: db_insert_def new_job_def image_iff)
  qed
  ultimately show ?thesis using assms(1) by (simp add: enqueue_def)
qed

lemma enqueue_rejects_user_id:
  assumes "truthy_string q" "truthy_string userId" "parse_uuid (the userId) = None"
    and "\<forall>j\<in>set s. idempotency_key j \<noteq> Some (make_idempotency_key userId (the q))"
  shows "enqueue newId now (Some (q, userId)) s = (CreateFailed, s)"
proof -
  have "find_active (make_idempotency_key userId (the q)) s = None"
    unfolding find_active_def using assms(4) by (intro single_filter_none) simp
  moreover from assms(2) obtain u where "userId = Some u"
    by (cases userId) (auto simp: truthy_string_def)
  ultimately show ?thesis
    using assms(1,2,3) by (simp add: enqueue_def db_insert_def new_job_def)
qed

lemma enqueue_non_uuid_user:
  "enqueue ''j1'' 0 (Some (Some ''q'', Some ''bob'')) [] = (CreateFailed, [])"
  by code_simp

text \<open>
  Claim C8 says that a submission whose key matches no pending or processing job
  inserts a fresh job, also when an earlier job with the same key is completed, failed
  or dead-lettered. The lookup indeed finds nothing then, but the insert repeats the
  key of the earlier row, the table declares \<open>idempotency_key\<close> unique, and the handler
  answers "Failed to create job" (500) without a new row.
\<close>

theorem resubmission_after_completion_fails:
  "find_active ''anonymous:q'' completed_once = None \<and>
   enqueue ''j2'' 7000 (Some (Some ''q'', None)) completed_once = (CreateFailed, completed_once) \<and>
   find_active ''anonymous:q'' failed_once = None \<and>
   enqueue ''j2'' 7000 (Some (Some ''q'', None)) failed_once = (CreateFailed, failed_once) \<and>
   enqueue ''j2'' 90000 (Some (Some ''q'', None)) failed_thrice = (CreateFailed, failed_thrice)"
  by (simp add: completed_once_eq failed_once_eq failed_thrice_eq enqueue_defs)

section \<open>Racing claims\<close>

lemma second_lock_matches_nothing:
  "rows_affected (lock_filter job) (lock_job now worker job s) = 0"
  by (simp add: rows_affected_def lock_job_def update_where_def lock_filter_def lock_patch_def
      filter_empty_conv)

lemma first_lock_matches_one:
  assumes "distinct (map job_id s)" "job \<in> set s" "status job = Pending \<or> status job = Failed"
  shows "rows_affected (lock_filter job) s = 1"
proof -
  have "filter (lock_filter job) s =
      filter (\<lambda>k. status k = Pending \<or> status k = Failed)
        (filter (\<lambda>k. job_id k = job_id job) s)"
    by (induction s) (simp_all add: lock_filter_def)
  also have "\<dots> = [job]"
    using assms(3) by (simp only: filter_distinct_key [OF assms(1,2)]) simp
  finally show ?thesis by (simp add: rows_affected_def)
qed

text \<open>
  Claim C1 says that the worker that loses the race for a job sees that its lock
  statement affected no row and reports that it claimed nothing. Here both requests
  select the one pending job, then both issue the lock statement, then both go on.
  The lock statement of the second request does match no row, but the handler reads
  only \<open>lockError\<close>, which a statement that matches nothing does not set: worker B calls
  the API for the job that worker A holds, overwrites the result that A has stored,
  and answers "Job processed successfully".
\<close>

theorem lost_race_is_not_reported:
  "pick_job 1000 one_pending = Some (hd one_pending) \<and>
   rows_affected (lock_filter (hd one_pending)) one_pending = 1 \<and>
   rows_affected (lock_filter (hd one_pending))
     (lock_job 1000 ''A'' (hd one_pending) one_pending) = 0 \<and>
   interleave [First, Second, First, Second]
     (''A'', 1000, 6000, False, None, ApiOk (JStr ''a''))
     (''B'', 1000, 7000, False, None, ApiOk (JStr ''b''))
     (Started, Started, one_pending) =
     (Locked (hd one_pending), Locked (hd one_pending),
      [(hd one_pending)\<lparr>status := Processing, locked_at := Some 1000,
                          locked_by := Some ''A'', updated_at := 1000\<rparr>]) \<and>
   interleave [First, Second, First, Second, First, Second]
     (''A'', 1000, 6000, False, None, ApiOk (JStr ''a''))
     (''B'', 1000, 7000, False, None, ApiOk (JStr ''b''))
     (Started, Started, one_pending) =
     (Answered (JobCompleted ''j1''), Answered (JobCompleted ''j1''),
      [(hd one_pending)\<lparr>status := Completed, result := Some (JStr ''b''),
                          updated_at := 7000, completed_at := Some 7000\<rparr>])"
  by (simp add: one_pending_eq rows_affected_def process_defs)

end
